theory Spec2Isabelle
  imports Main "HOL-Library.Word"
begin

unbundle bit_operations_syntax

section \<open>The fx PCI device (hw/misc/fx.c)\<close>

text \<open>
  The device is one \<open>FxState\<close> object shared by three actors: the register path
  (\<open>fx_mmio_read\<close>, \<open>fx_mmio_write\<close>), the worker thread (\<open>wait_device_driver\<close>,
  \<open>fx_forcer_thread\<close>) and the configuration socket (\<open>read_conf_server_callback\<close>).
  Each C function becomes a function on the device state; the threads become program
  counters stored in that state, and an interleaving is a list of events. Code that runs
  under a mutex is one step against the other holders of that mutex; code that runs
  without one (\<open>fx_lower_irq\<close> on the register path) interleaves with the other
  thread statement by statement.
\<close>

type_synonym u32 = "32 word"
type_synonym u64 = "64 word"
type_synonym hwaddr = "64 word"

subsection \<open>Register offsets and constants\<close>

definition ID_REGISTER :: hwaddr where "ID_REGISTER = 0x00"
definition CARD_LIVENESS_REGISTER :: hwaddr where "CARD_LIVENESS_REGISTER = 0x04"
definition SCHEDULE_NEXT_REGISTER :: hwaddr where "SCHEDULE_NEXT_REGISTER = 0x08"
definition INTERRUPT_STATUS_REGISTER :: hwaddr where "INTERRUPT_STATUS_REGISTER = 0x24"
definition START_THREAD_REGISTER :: hwaddr where "START_THREAD_REGISTER = 0x30"
definition INTERRUPT_RAISE_REGISTER :: hwaddr where "INTERRUPT_RAISE_REGISTER = 0x60"
definition INTERRUPT_ACK_REGISTER :: hwaddr where "INTERRUPT_ACK_REGISTER = 0x64"

definition CONF_INTERVAL_DEFAULT :: u32 where "CONF_INTERVAL_DEFAULT = 10"

text \<open>\<open>G_USEC_PER_SEC\<close> is GLib's macro, the integer 1000000.\<close>

definition G_USEC_PER_SEC :: u32 where "G_USEC_PER_SEC = 1000000"

subsection \<open>The interrupt signalling of the PCI core\<close>

text \<open>
  \<open>msi_enabled\<close>, \<open>msi_notify\<close> and \<open>pci_set_irq\<close> belong to the PCI core, which
  is not part of hw/misc/fx.c. The device only needs three facts of a \<open>PCIDevice\<close>:
  whether message signalling is selected, the level of the interrupt pin, and how many
  messages have been sent.
\<close>

record PCIDevice =
  msi_enable :: bool
  intx_level :: bool
  msi_count :: nat

text \<open>Modelled from the spec: \<open>msi_enabled\<close> (PCI core) tells whether the instance uses
  message-style signalling, selected at construction.\<close>

definition msi_enabled :: "PCIDevice \<Rightarrow> bool" where
  "msi_enabled p = msi_enable p"

text \<open>Modelled from the spec: \<open>msi_notify\<close> (PCI core) delivers one discrete
  notification.\<close>

definition msi_notify :: "PCIDevice \<Rightarrow> PCIDevice" where
  "msi_notify p = p\<lparr>msi_count := Suc (msi_count p)\<rparr>"

text \<open>Modelled from the spec: \<open>pci_set_irq\<close> (PCI core) asserts the line for a non-zero
  level and deasserts it for zero; the line holds its level until set again.\<close>

definition pci_set_irq :: "PCIDevice \<Rightarrow> int \<Rightarrow> PCIDevice" where
  "pci_set_irq p level = p\<lparr>intx_level := (level \<noteq> 0)\<rparr>"

subsection \<open>The worker thread and the teardown as program counters\<close>

text \<open>
  Where the worker thread stands in \<open>wait_device_driver\<close> and \<open>fx_forcer_thread\<close>:
  \<^item> \<open>WCreated\<close>: created by \<open>qemu_thread_create\<close>, before its first \<open>qemu_cond_wait\<close>;
  \<^item> \<open>WArmedWait\<close>: blocked in the \<open>qemu_cond_wait\<close> of \<open>wait_device_driver\<close>;
  \<^item> \<open>WLoopTop\<close>: at the top of \<open>while (1)\<close>, before \<open>getrandom\<close>;
  \<^item> \<open>WSleeping d\<close>: inside \<open>g_usleep d\<close>;
  \<^item> \<open>WRaiseTest\<close>: inside \<open>fx_raise_irq\<close>, holding \<open>thr_mutex\<close>, after
    \<open>fx->irq_status |= val\<close> and before the test \<open>if (fx->irq_status)\<close>;
  \<^item> \<open>WRaiseNotify\<close>: inside \<open>fx_raise_irq\<close>, holding \<open>thr_mutex\<close>, the test has
    succeeded, before \<open>msi_notify\<close> or \<open>pci_set_irq\<close>;
  \<^item> \<open>WRaisedWait\<close>: blocked in the \<open>qemu_cond_wait\<close> that follows \<open>fx_raise_irq\<close>;
  \<^item> \<open>WWoken\<close>: that wait has returned, \<open>fx->stopping\<close> is not yet tested;
  \<^item> \<open>WExited\<close>: the thread function has returned.
\<close>

datatype worker_pc =
  WCreated | WArmedWait | WLoopTop | WSleeping u32 | WRaiseTest | WRaiseNotify
| WRaisedWait | WWoken | WExited

text \<open>
  Where \<open>pci_fx_uninit\<close> stands: not called, stop flag set (before
  \<open>qemu_cond_signal\<close>), blocked in \<open>qemu_thread_join\<close>, or past the join.
\<close>

datatype uninit_pc = UIdle | UStopSet | UJoining | UJoined

text \<open>
  Where the register path stands in a call of \<open>fx_lower_irq\<close>, which it makes without
  \<open>thr_mutex\<close>: no call in flight, after \<open>fx->irq_status &= ~val\<close> and before the
  test, or after a successful test and before \<open>pci_set_irq(&fx->pdev, 0)\<close>.
\<close>

datatype reactor_pc = RIdle | RLowerTest | RLowerCall

subsection \<open>struct FxState\<close>

text \<open>
  The fields of the C struct, in its order. \<open>thread\<close> is the state of the worker thread;
  the condition variable \<open>thr_cond\<close> has no field of its own: a thread waits on it
  exactly when \<open>thread\<close> is \<open>WArmedWait\<close> or \<open>WRaisedWait\<close>. \<open>thr_mutex\<close> has no field
  either: the register path and the teardown hold it within one step only, the worker
  holds it across steps exactly at \<open>WRaiseTest\<close> and \<open>WRaiseNotify\<close>. \<open>conf_mutex\<close>
  protects the one read and the one write of \<open>conf_sleep_interval\<close>, each one step.
  \<open>conn_open\<close> records that \<open>conn_fd\<close> is an open descriptor with a read handler
  registered; \<open>uninit\<close> is the progress of \<open>pci_fx_uninit\<close>, \<open>reactor\<close> that of a
  call of \<open>fx_lower_irq\<close> on the register path.
\<close>

record FxState =
  pdev :: PCIDevice
  thread :: worker_pc
  stopping :: bool
  irq_status :: u32
  card_liveness :: u32
  conf_sleep_interval :: u32
  listen_fd :: int
  conn_fd :: int
  conn_open :: bool
  uninit :: uninit_pc
  reactor :: reactor_pc

text \<open>The worker holds \<open>thr_mutex\<close> between two of its steps: \<open>qemu_mutex_lock\<close> by
  another thread blocks.\<close>

definition thr_mutex_held :: "FxState \<Rightarrow> bool" where
  "thr_mutex_held fx = (thread fx = WRaiseTest \<or> thread fx = WRaiseNotify)"

subsection \<open>Interrupt line: \<open>fx_raise_irq\<close>, \<open>fx_lower_irq\<close>\<close>

definition fx_msi_enabled :: "FxState \<Rightarrow> bool" where
  "fx_msi_enabled fx = msi_enabled (pdev fx)"

definition fx_raise_irq :: "FxState \<Rightarrow> u32 \<Rightarrow> FxState" where
  "fx_raise_irq fx val =
     (let fx1 = fx\<lparr>irq_status := irq_status fx OR val\<rparr> in
      if irq_status fx1 \<noteq> 0 then
        (if fx_msi_enabled fx1 then fx1\<lparr>pdev := msi_notify (pdev fx1)\<rparr>
         else fx1\<lparr>pdev := pci_set_irq (pdev fx1) 1\<rparr>)
      else fx1)"

definition fx_lower_irq :: "FxState \<Rightarrow> u32 \<Rightarrow> FxState" where
  "fx_lower_irq fx val =
     (let fx1 = fx\<lparr>irq_status := irq_status fx AND NOT val\<rparr> in
      if irq_status fx1 = 0 \<and> \<not> fx_msi_enabled fx1
      then fx1\<lparr>pdev := pci_set_irq (pdev fx1) 0\<rparr>
      else fx1)"

text \<open>
  The statements of the two functions, one by one, for the interleavings in which the
  worker is inside \<open>fx_raise_irq\<close> while the register path is inside \<open>fx_lower_irq\<close>:
  the assignment, the test, and the call on the PCI device.
\<close>

definition fx_raise_irq_or :: "FxState \<Rightarrow> u32 \<Rightarrow> FxState" where
  "fx_raise_irq_or fx val = fx\<lparr>irq_status := irq_status fx OR val\<rparr>"

definition fx_raise_irq_test :: "FxState \<Rightarrow> bool" where
  "fx_raise_irq_test fx = (irq_status fx \<noteq> 0)"

definition fx_raise_irq_notify :: "FxState \<Rightarrow> FxState" where
  "fx_raise_irq_notify fx =
     (if fx_msi_enabled fx then fx\<lparr>pdev := msi_notify (pdev fx)\<rparr>
      else fx\<lparr>pdev := pci_set_irq (pdev fx) 1\<rparr>)"

definition fx_lower_irq_and :: "FxState \<Rightarrow> u32 \<Rightarrow> FxState" where
  "fx_lower_irq_and fx val = fx\<lparr>irq_status := irq_status fx AND NOT val\<rparr>"

definition fx_lower_irq_test :: "FxState \<Rightarrow> bool" where
  "fx_lower_irq_test fx = (irq_status fx = 0 \<and> \<not> fx_msi_enabled fx)"

definition fx_lower_irq_call :: "FxState \<Rightarrow> FxState" where
  "fx_lower_irq_call fx = fx\<lparr>pdev := pci_set_irq (pdev fx) 0\<rparr>"

subsection \<open>The rendezvous condition variable\<close>

text \<open>Modelled from the spec: \<open>qemu_cond_signal\<close> (QEMU's thread library) on \<open>thr_cond\<close>.
  The worker blocks on the rendezvous until it is signalled; a signal releases the worker
  when it is blocked in one of its two waits and is not remembered otherwise. The wait of
  \<open>wait_device_driver\<close> returns straight into \<open>fx_forcer_thread\<close>; the wait inside the
  loop returns to the test of \<open>fx->stopping\<close>.\<close>

definition qemu_cond_signal :: "FxState \<Rightarrow> FxState" where
  "qemu_cond_signal fx =
     (case thread fx of
        WArmedWait \<Rightarrow> fx\<lparr>thread := WLoopTop\<rparr>
      | WRaisedWait \<Rightarrow> fx\<lparr>thread := WWoken\<rparr>
      | _ \<Rightarrow> fx)"

subsection \<open>Register file: \<open>fx_mmio_read\<close>, \<open>fx_mmio_write\<close>\<close>

text \<open>The read returns the value and the device state it leaves behind.\<close>

definition fx_mmio_read :: "FxState \<Rightarrow> hwaddr \<Rightarrow> u32 \<Rightarrow> u64 \<times> FxState" where
  "fx_mmio_read fx addr sz =
     (if sz \<noteq> 4 then (NOT 0, fx)
      else if addr = ID_REGISTER then (0x01000ed, fx)
      else if addr = CARD_LIVENESS_REGISTER then (ucast (card_liveness fx), fx)
      else if addr = INTERRUPT_STATUS_REGISTER then (ucast (irq_status fx), fx)
      else (NOT 0, fx))"

definition fx_mmio_write :: "FxState \<Rightarrow> hwaddr \<Rightarrow> u64 \<Rightarrow> u32 \<Rightarrow> FxState" where
  "fx_mmio_write fx addr val sz =
     (if sz \<noteq> 4 then fx
      else if addr = START_THREAD_REGISTER then qemu_cond_signal fx
      else if addr = SCHEDULE_NEXT_REGISTER then qemu_cond_signal fx
      else if addr = INTERRUPT_RAISE_REGISTER then fx
      else if addr = INTERRUPT_ACK_REGISTER then fx_lower_irq fx (ucast val)
      else fx)"

text \<open>
  The write as a step of an interleaving. The start and schedule-next cases take
  \<open>thr_mutex\<close>: while the worker holds it the write does not proceed, and the step leaves
  the state as it is. The acknowledge case takes no mutex: the step runs the first
  statement of \<open>fx_lower_irq\<close> and leaves the call in flight; \<open>fx_lower_irq_step\<close>
  continues it. The register path is one thread, so a second acknowledge write does not
  start while a call is in flight.
\<close>

definition fx_mmio_write_step :: "FxState \<Rightarrow> hwaddr \<Rightarrow> u64 \<Rightarrow> u32 \<Rightarrow> FxState" where
  "fx_mmio_write_step fx addr val sz =
     (if sz \<noteq> 4 then fx
      else if addr = START_THREAD_REGISTER then
        (if thr_mutex_held fx then fx else qemu_cond_signal fx)
      else if addr = SCHEDULE_NEXT_REGISTER then
        (if thr_mutex_held fx then fx else qemu_cond_signal fx)
      else if addr = INTERRUPT_RAISE_REGISTER then fx
      else if addr = INTERRUPT_ACK_REGISTER then
        (if reactor fx = RIdle then (fx_lower_irq_and fx (ucast val))\<lparr>reactor := RLowerTest\<rparr>
         else fx)
      else fx)"

definition fx_lower_irq_step :: "FxState \<Rightarrow> FxState" where
  "fx_lower_irq_step fx =
     (case reactor fx of
        RIdle \<Rightarrow> fx
      | RLowerTest \<Rightarrow>
          (if fx_lower_irq_test fx then fx\<lparr>reactor := RLowerCall\<rparr> else fx\<lparr>reactor := RIdle\<rparr>)
      | RLowerCall \<Rightarrow> (fx_lower_irq_call fx)\<lparr>reactor := RIdle\<rparr>)"

subsection \<open>Event worker: \<open>wait_device_driver\<close>, \<open>fx_forcer_thread\<close>\<close>

text \<open>
  The argument of \<open>g_usleep\<close>, in the \<open>unsigned int\<close> arithmetic of the C expression
  \<open>(interval * G_USEC_PER_SEC / 10) + (*(unsigned int *)buf % (G_USEC_PER_SEC / 100))\<close>.
  \<open>base_period\<close> and \<open>jitter\<close> are its two summands, \<open>max_jitter\<close> the largest value
  of the second.
\<close>

definition base_period :: "u32 \<Rightarrow> u32" where
  "base_period interval = interval * G_USEC_PER_SEC div 10"

definition jitter :: "u32 \<Rightarrow> u32" where
  "jitter random = random mod (G_USEC_PER_SEC div 100)"

definition max_jitter :: u32 where
  "max_jitter = G_USEC_PER_SEC div 100 - 1"

definition sleep_usecs :: "u32 \<Rightarrow> u32 \<Rightarrow> u32" where
  "sleep_usecs interval random =
     (interval * G_USEC_PER_SEC div 10) + (random mod (G_USEC_PER_SEC div 100))"

text \<open>
  One step of the worker thread; \<open>random\<close> is what \<open>getrandom\<close> puts into \<open>buf\<close>.
  \<^item> From \<open>WCreated\<close> the thread takes \<open>thr_mutex\<close> and blocks in its first wait.
  \<^item> From \<open>WLoopTop\<close> it draws the random value, reads \<open>conf_sleep_interval\<close> under
    \<open>conf_mutex\<close> and enters \<open>g_usleep\<close>.
  \<^item> From \<open>WSleeping\<close> it takes \<open>thr_mutex\<close> and enters \<open>fx_raise_irq(fx, 0x1)\<close>,
    running \<open>fx->irq_status |= val\<close>.
  \<^item> From \<open>WRaiseTest\<close> it tests \<open>fx->irq_status\<close>; when the mask is zero
    \<open>fx_raise_irq\<close> returns and the thread blocks in \<open>qemu_cond_wait\<close>, which releases
    the mutex.
  \<^item> From \<open>WRaiseNotify\<close> it calls \<open>msi_notify\<close> or \<open>pci_set_irq\<close>, returns from
    \<open>fx_raise_irq\<close> and blocks in \<open>qemu_cond_wait\<close>.
  \<^item> From \<open>WWoken\<close> it tests \<open>fx->stopping\<close>: \<open>break\<close> and return, or the next
    iteration.
  \<^item> A blocked or finished thread makes no step.
\<close>

definition fx_forcer_thread :: "u32 \<Rightarrow> FxState \<Rightarrow> FxState" where
  "fx_forcer_thread random fx =
     (case thread fx of
        WCreated \<Rightarrow> fx\<lparr>thread := WArmedWait\<rparr>
      | WArmedWait \<Rightarrow> fx
      | WLoopTop \<Rightarrow> fx\<lparr>thread := WSleeping (sleep_usecs (conf_sleep_interval fx) random)\<rparr>
      | WSleeping d \<Rightarrow> (fx_raise_irq_or fx 0x1)\<lparr>thread := WRaiseTest\<rparr>
      | WRaiseTest \<Rightarrow>
          (if fx_raise_irq_test fx then fx\<lparr>thread := WRaiseNotify\<rparr>
           else fx\<lparr>thread := WRaisedWait\<rparr>)
      | WRaiseNotify \<Rightarrow> (fx_raise_irq_notify fx)\<lparr>thread := WRaisedWait\<rparr>
      | WRaisedWait \<Rightarrow> fx
      | WWoken \<Rightarrow> (if stopping fx then fx\<lparr>thread := WExited\<rparr> else fx\<lparr>thread := WLoopTop\<rparr>)
      | WExited \<Rightarrow> fx)"

subsection \<open>Configuration channel\<close>

definition accept_conf_server_callback :: "int \<Rightarrow> FxState \<Rightarrow> FxState" where
  "accept_conf_server_callback fd fx = fx\<lparr>conn_fd := fd, conn_open := True\<rparr>"

text \<open>
  \<open>read(fx->conn_fd, &interval, sizeof(unsigned int))\<close> is a system call; its outcome is
  given by two arguments: \<open>nread\<close>, the value it returns (-1 for an error, otherwise the
  number of bytes received, 0 to 4), and \<open>interval\<close>, the content of the local variable
  \<open>interval\<close> after the call (the bytes received over whatever the uninitialised variable
  held). The C code does not look at the returned value.
\<close>

definition read_conf_server_callback :: "int \<Rightarrow> u32 \<Rightarrow> FxState \<Rightarrow> FxState" where
  "read_conf_server_callback nread interval fx =
     fx\<lparr>conf_sleep_interval := interval, conn_open := False\<rparr>"

subsection \<open>Lifecycle: \<open>fx_instance_init\<close>, \<open>pci_fx_realize\<close>, \<open>pci_fx_uninit\<close>\<close>

text \<open>
  The device after \<open>fx_instance_init\<close> and \<open>pci_fx_realize\<close>: the object is allocated
  zeroed, the liveness sentinel is set, the worker thread is created, and
  \<open>conf_server_init\<close> stores the default interval and the listening socket \<open>lfd\<close>.
  \<open>msi\<close> tells whether the instance signals by messages.
\<close>

definition pci_fx_realize :: "bool \<Rightarrow> int \<Rightarrow> FxState" where
  "pci_fx_realize msi lfd =
     \<lparr>pdev = \<lparr>msi_enable = msi, intx_level = False, msi_count = 0\<rparr>,
      thread = WCreated, stopping = False, irq_status = 0, card_liveness = 0xdeadbeef,
      conf_sleep_interval = CONF_INTERVAL_DEFAULT, listen_fd = lfd, conn_fd = 0,
      conn_open = False, uninit = UIdle, reactor = RIdle\<rparr>"

text \<open>
  One step of \<open>pci_fx_uninit\<close>: set \<open>stopping\<close> under \<open>thr_mutex\<close> (the step does
  not proceed while the worker holds the mutex); then \<open>qemu_cond_signal\<close>, outside the
  mutex; then \<open>qemu_thread_join\<close>, which returns only once the worker has exited.
\<close>

definition pci_fx_uninit :: "FxState \<Rightarrow> FxState" where
  "pci_fx_uninit fx =
     (case uninit fx of
        UIdle \<Rightarrow>
          (if thr_mutex_held fx then fx else fx\<lparr>stopping := True, uninit := UStopSet\<rparr>)
      | UStopSet \<Rightarrow> (qemu_cond_signal fx)\<lparr>uninit := UJoining\<rparr>
      | UJoining \<Rightarrow> (if thread fx = WExited then fx\<lparr>uninit := UJoined\<rparr> else fx)
      | UJoined \<Rightarrow> fx)"

subsection \<open>Interleavings\<close>

text \<open>
  An event is one step of one actor: a register access by the controller, the next
  statement of an acknowledge write in flight (\<open>LowerStep\<close>), a readiness callback of
  the configuration socket, a step of the worker thread, or a step of the teardown. A run
  is a list of events applied from left to right; an event that cannot proceed in the
  current state leaves it unchanged. The register accesses, the callbacks and the
  teardown all run in the one reactor thread; a run may list them in any order, also
  while an acknowledge write is in flight or the teardown is blocked in its join, which
  are more schedules than the reactor thread has.
\<close>

datatype event =
  MmioRead hwaddr u32
| MmioWrite hwaddr u64 u32
| LowerStep
| ConfAccept int
| ConfRead int u32
| Worker u32
| Uninit

fun step :: "event \<Rightarrow> FxState \<Rightarrow> FxState" where
  "step (MmioRead addr sz) fx = snd (fx_mmio_read fx addr sz)"
| "step (MmioWrite addr val sz) fx = fx_mmio_write_step fx addr val sz"
| "step LowerStep fx = fx_lower_irq_step fx"
| "step (ConfAccept fd) fx = accept_conf_server_callback fd fx"
| "step (ConfRead nread interval) fx = read_conf_server_callback nread interval fx"
| "step (Worker random) fx = fx_forcer_thread random fx"
| "step Uninit fx = pci_fx_uninit fx"

fun run :: "event list \<Rightarrow> FxState \<Rightarrow> FxState" where
  "run [] fx = fx"
| "run (e # es) fx = run es (step e fx)"

subsection \<open>Notions the properties are stated with\<close>

text \<open>The offsets of the register table.\<close>

definition fx_register_set :: "hwaddr set" where
  "fx_register_set =
     {ID_REGISTER, CARD_LIVENESS_REGISTER, SCHEDULE_NEXT_REGISTER, INTERRUPT_STATUS_REGISTER,
      START_THREAD_REGISTER, INTERRUPT_RAISE_REGISTER, INTERRUPT_ACK_REGISTER}"

text \<open>The event makes the worker call \<open>fx_raise_irq\<close>: the worker step taken at the end
  of its sleep, which enters the function. No other event calls it (the call in
  \<open>fx_mmio_write\<close> is commented out).\<close>

definition is_raise :: "event \<Rightarrow> FxState \<Rightarrow> bool" where
  "is_raise e fx =
     (case e of
        Worker random \<Rightarrow> (case thread fx of WSleeping d \<Rightarrow> True | _ \<Rightarrow> False)
      | _ \<Rightarrow> False)"

text \<open>The event is a controller write that signals the rendezvous: a 4-byte write to the
  start or to the schedule-next register that proceeds, the worker not holding
  \<open>thr_mutex\<close>.\<close>

definition rendezvous_write :: "event \<Rightarrow> FxState \<Rightarrow> bool" where
  "rendezvous_write e fx =
     (case e of
        MmioWrite addr val sz \<Rightarrow>
          sz = 4 \<and> (addr = START_THREAD_REGISTER \<or> addr = SCHEDULE_NEXT_REGISTER) \<and>
          \<not> thr_mutex_held fx
      | _ \<Rightarrow> False)"

text \<open>
  \<open>raises_separated acked es fx\<close> follows the run of \<open>es\<close> from \<open>fx\<close> and checks that
  every raise finds \<open>acked\<close> set; a raise clears \<open>acked\<close> and a rendezvous write sets
  it. Started with \<open>acked\<close> set, it holds exactly when a rendezvous write lies between
  any two raises of the run.
\<close>

fun raises_separated :: "bool \<Rightarrow> event list \<Rightarrow> FxState \<Rightarrow> bool" where
  "raises_separated acked [] fx = True"
| "raises_separated acked (e # es) fx =
     (if is_raise e fx then acked \<and> raises_separated False es (step e fx)
      else raises_separated (acked \<or> rendezvous_write e fx) es (step e fx))"

text \<open>The number of raises in a run.\<close>

fun raise_count :: "event list \<Rightarrow> FxState \<Rightarrow> nat" where
  "raise_count [] fx = 0"
| "raise_count (e # es) fx = (if is_raise e fx then 1 else 0) + raise_count es (step e fx)"

definition is_conf_read :: "event \<Rightarrow> bool" where
  "is_conf_read e = (case e of ConfRead nread interval \<Rightarrow> True | _ \<Rightarrow> False)"

definition is_mmio_read :: "event \<Rightarrow> bool" where
  "is_mmio_read e = (case e of MmioRead addr sz \<Rightarrow> True | _ \<Rightarrow> False)"

text \<open>
  While \<open>pci_fx_uninit\<close> runs, the reactor context is inside it, so the only steps are the
  teardown's own and the worker's: \<open>None\<close> stands for a step of the teardown, \<open>Some r\<close>
  for a worker step drawing the random value \<open>r\<close>.
\<close>

definition teardown_event :: "u32 option \<Rightarrow> event" where
  "teardown_event x = (case x of None \<Rightarrow> Uninit | Some random \<Rightarrow> Worker random)"

text \<open>Three moments at which the teardown can begin: the worker still in its armed wait,
  inside \<open>g_usleep\<close>, and blocked in the wait after a raise.\<close>

definition armed_wait_state :: "bool \<Rightarrow> FxState" where
  "armed_wait_state msi = run [Worker 0] (pci_fx_realize msi 3)"

definition mid_sleep_state :: "bool \<Rightarrow> FxState" where
  "mid_sleep_state msi =
     run [Worker 0, MmioWrite START_THREAD_REGISTER 1 4, Worker 0] (pci_fx_realize msi 3)"

definition raised_wait_state :: "bool \<Rightarrow> FxState" where
  "raised_wait_state msi = run [Worker 0, Worker 0, Worker 0] (mid_sleep_state msi)"


text \<open>Invariant of the rendezvous used for the separation of raises: a teardown that is
  about to signal has set the stop flag, and unless a rendezvous write has been seen since
  the last raise (\<open>acked\<close>), the worker is inside \<open>fx_raise_irq\<close>, is blocked after its
  raise, has exited, or has been woken with the stop flag set.\<close>

definition rendezvous_inv :: "bool \<Rightarrow> FxState \<Rightarrow> bool" where
  "rendezvous_inv acked fx =
     ((uninit fx = UStopSet \<longrightarrow> stopping fx) \<and>
      (acked \<or> thread fx = WRaiseTest \<or> thread fx = WRaiseNotify \<or>
       thread fx = WRaisedWait \<or> thread fx = WExited \<or>
       (thread fx = WWoken \<and> stopping fx)))"

text \<open>States from which \<open>qemu_thread_join\<close> cannot return by steps of the teardown and of
  the worker alone: the signal of the teardown is spent, or will be spent, on the armed
  wait, and the worker is on its way to the wait after the raise.\<close>

definition join_blocked :: "FxState \<Rightarrow> bool" where
  "join_blocked fx =
     (case thread fx of
        WArmedWait \<Rightarrow> uninit fx = UIdle \<or> uninit fx = UStopSet
      | WLoopTop \<Rightarrow> uninit fx = UJoining
      | WSleeping d \<Rightarrow> uninit fx = UJoining
      | WRaiseTest \<Rightarrow> uninit fx = UJoining
      | WRaiseNotify \<Rightarrow> uninit fx = UJoining
      | WRaisedWait \<Rightarrow> uninit fx = UJoining
      | _ \<Rightarrow> False)"

section \<open>Basic facts\<close>

lemmas fx_registers =
  ID_REGISTER_def CARD_LIVENESS_REGISTER_def SCHEDULE_NEXT_REGISTER_def
  INTERRUPT_STATUS_REGISTER_def START_THREAD_REGISTER_def INTERRUPT_RAISE_REGISTER_def
  INTERRUPT_ACK_REGISTER_def

lemmas pci_core = msi_enabled_def msi_notify_def pci_set_irq_def fx_msi_enabled_def

lemma raise_frame [simp]:
  "thread (fx_raise_irq fx val) = thread fx"
  "stopping (fx_raise_irq fx val) = stopping fx"
  "uninit (fx_raise_irq fx val) = uninit fx"
  "conf_sleep_interval (fx_raise_irq fx val) = conf_sleep_interval fx"
  by (simp_all add: fx_raise_irq_def Let_def)

lemma lower_frame [simp]:
  "thread (fx_lower_irq fx val) = thread fx"
  "stopping (fx_lower_irq fx val) = stopping fx"
  "uninit (fx_lower_irq fx val) = uninit fx"
  "conf_sleep_interval (fx_lower_irq fx val) = conf_sleep_interval fx"
  by (simp_all add: fx_lower_irq_def Let_def)

lemma statement_frame [simp]:
  "thread (fx_raise_irq_or fx val) = thread fx"
  "stopping (fx_raise_irq_or fx val) = stopping fx"
  "uninit (fx_raise_irq_or fx val) = uninit fx"
  "conf_sleep_interval (fx_raise_irq_or fx val) = conf_sleep_interval fx"
  "thread (fx_raise_irq_notify fx) = thread fx"
  "stopping (fx_raise_irq_notify fx) = stopping fx"
  "uninit (fx_raise_irq_notify fx) = uninit fx"
  "conf_sleep_interval (fx_raise_irq_notify fx) = conf_sleep_interval fx"
  "thread (fx_lower_irq_and fx val) = thread fx"
  "stopping (fx_lower_irq_and fx val) = stopping fx"
  "uninit (fx_lower_irq_and fx val) = uninit fx"
  "conf_sleep_interval (fx_lower_irq_and fx val) = conf_sleep_interval fx"
  "thread (fx_lower_irq_call fx) = thread fx"
  "stopping (fx_lower_irq_call fx) = stopping fx"
  "uninit (fx_lower_irq_call fx) = uninit fx"
  "conf_sleep_interval (fx_lower_irq_call fx) = conf_sleep_interval fx"
  by (simp_all add: fx_raise_irq_or_def fx_raise_irq_notify_def fx_lower_irq_and_def
      fx_lower_irq_call_def)

lemma lower_step_frame [simp]:
  "thread (fx_lower_irq_step fx) = thread fx"
  "stopping (fx_lower_irq_step fx) = stopping fx"
  "uninit (fx_lower_irq_step fx) = uninit fx"
  "conf_sleep_interval (fx_lower_irq_step fx) = conf_sleep_interval fx"
  by (simp_all add: fx_lower_irq_step_def split: reactor_pc.splits)

text \<open>The statements, run one after the other, are the two C functions.\<close>

lemma fx_raise_irq_statements:
  "fx_raise_irq fx val =
     (if fx_raise_irq_test (fx_raise_irq_or fx val)
      then fx_raise_irq_notify (fx_raise_irq_or fx val) else fx_raise_irq_or fx val)"
  by (simp add: fx_raise_irq_def fx_raise_irq_or_def fx_raise_irq_test_def
      fx_raise_irq_notify_def Let_def pci_core)

lemma fx_lower_irq_statements:
  "fx_lower_irq fx val =
     (if fx_lower_irq_test (fx_lower_irq_and fx val)
      then fx_lower_irq_call (fx_lower_irq_and fx val) else fx_lower_irq_and fx val)"
  by (simp add: fx_lower_irq_def fx_lower_irq_and_def fx_lower_irq_test_def
      fx_lower_irq_call_def Let_def pci_core)

text \<open>Without interference, the steps of a raise and of a register write amount to the C
  functions: the worker's three steps from the end of its sleep are \<open>fx_raise_irq\<close>
  followed by the wait, and a write followed by the steps of its \<open>fx_lower_irq\<close> is
  \<open>fx_mmio_write\<close>.\<close>

lemma worker_raise_uninterrupted:
  "thread fx = WSleeping d \<Longrightarrow>
   run [Worker r1, Worker r2, Worker r3] fx = (fx_raise_irq fx 1)\<lparr>thread := WRaisedWait\<rparr>"
  by (simp add: fx_forcer_thread_def fx_raise_irq_statements)
    (simp add: fx_raise_irq_test_def fx_raise_irq_or_def fx_raise_irq_notify_def
      or_eq_0_iff pci_core)

lemma lower_irq_uninterrupted:
  assumes "reactor fx = RIdle"
  shows "fx_lower_irq_step (fx_lower_irq_step ((fx_lower_irq_and fx val)\<lparr>reactor := RLowerTest\<rparr>))
    = fx_lower_irq fx val"
  using assms
  by (auto simp: fx_lower_irq_statements fx_lower_irq_step_def fx_lower_irq_test_def
      fx_lower_irq_and_def fx_lower_irq_call_def pci_core intro!: FxState.equality)

lemma mmio_write_uninterrupted:
  assumes "reactor fx = RIdle" "\<not> thr_mutex_held fx"
  shows "run [MmioWrite addr val sz, LowerStep, LowerStep] fx = fx_mmio_write fx addr val sz"
proof (cases "sz = 4 \<and> addr = INTERRUPT_ACK_REGISTER")
  case True
  with assms lower_irq_uninterrupted [OF assms(1)] show ?thesis
    by (simp add: fx_mmio_write_step_def fx_mmio_write_def fx_registers)
next
  case False
  have "reactor (qemu_cond_signal fx) = RIdle"
    using assms(1) by (simp add: qemu_cond_signal_def split: worker_pc.splits)
  with False assms show ?thesis
    by (auto simp: fx_mmio_write_step_def fx_mmio_write_def fx_lower_irq_step_def)
qed

lemma signal_frame [simp]:
  "stopping (qemu_cond_signal fx) = stopping fx"
  "uninit (qemu_cond_signal fx) = uninit fx"
  "conf_sleep_interval (qemu_cond_signal fx) = conf_sleep_interval fx"
  by (simp_all add: qemu_cond_signal_def split: worker_pc.splits)

text \<open>The three named states, by running the model.\<close>

lemma armed_wait_state_pc:
  "thread (armed_wait_state msi) = WArmedWait \<and> uninit (armed_wait_state msi) = UIdle"
  by (simp add: armed_wait_state_def pci_fx_realize_def fx_forcer_thread_def)

lemma mid_sleep_state_eq:
  "mid_sleep_state msi =
     (pci_fx_realize msi 3)\<lparr>thread := WSleeping 1000000\<rparr>"
  by (simp add: mid_sleep_state_def pci_fx_realize_def fx_forcer_thread_def
      fx_mmio_write_step_def thr_mutex_held_def fx_registers qemu_cond_signal_def
      sleep_usecs_def CONF_INTERVAL_DEFAULT_def G_USEC_PER_SEC_def)

lemma mid_sleep_state_pc:
  "thread (mid_sleep_state msi) = WSleeping 1000000 \<and> uninit (mid_sleep_state msi) = UIdle \<and>
   \<not> stopping (mid_sleep_state msi)"
  by (simp add: mid_sleep_state_eq pci_fx_realize_def)

lemma raised_wait_state_eq:
  "raised_wait_state msi = (fx_raise_irq (mid_sleep_state msi) 1)\<lparr>thread := WRaisedWait\<rparr>"
  unfolding raised_wait_state_def
  by (rule worker_raise_uninterrupted) (simp add: mid_sleep_state_eq)

lemma raised_wait_state_pc:
  "thread (raised_wait_state msi) = WRaisedWait \<and> uninit (raised_wait_state msi) = UIdle \<and>
   reactor (raised_wait_state msi) = RIdle"
  by (simp add: raised_wait_state_eq mid_sleep_state_eq pci_fx_realize_def fx_raise_irq_def
      Let_def pci_core)

lemma raised_wait_state_irq:
  "irq_status (raised_wait_state msi) = 1 \<and>
   msi_enable (pdev (raised_wait_state msi)) = msi \<and>
   msi_count (pdev (raised_wait_state msi)) = (if msi then 1 else 0) \<and>
   intx_level (pdev (raised_wait_state msi)) = (\<not> msi)"
  by (simp add: raised_wait_state_eq mid_sleep_state_eq pci_fx_realize_def fx_raise_irq_def
      Let_def pci_core)

section \<open>Register file\<close>

text \<open>
  C3, as the code has it: a 4-byte read of the schedule-next, start, interrupt-raise or
  interrupt-acknowledge register returns all-ones. \<open>fx_mmio_read\<close> has a case only for the
  identification, liveness and interrupt-status registers; every other offset keeps the
  initial \<open>~0ULL\<close>.
\<close>

theorem write_only_registers_read_all_ones:
  "fst (fx_mmio_read fx SCHEDULE_NEXT_REGISTER 4) = NOT 0 \<and>
   fst (fx_mmio_read fx START_THREAD_REGISTER 4) = NOT 0 \<and>
   fst (fx_mmio_read fx INTERRUPT_RAISE_REGISTER 4) = NOT 0 \<and>
   fst (fx_mmio_read fx INTERRUPT_ACK_REGISTER 4) = NOT 0"
  by (simp add: fx_mmio_read_def fx_registers)

text \<open>
  C3 as stated (these registers read as zero) fails: on a freshly realized device the
  schedule-next register reads \<open>0xFFFFFFFFFFFFFFFF\<close>, and the start register does not read
  zero either.
\<close>

theorem schedule_next_reads_nonzero:
  "fst (fx_mmio_read (pci_fx_realize False 3) SCHEDULE_NEXT_REGISTER 4) = 0xFFFFFFFFFFFFFFFF \<and>
   fst (fx_mmio_read (pci_fx_realize False 3) SCHEDULE_NEXT_REGISTER 4) \<noteq> 0 \<and>
   fst (fx_mmio_read (pci_fx_realize False 3) START_THREAD_REGISTER 4) \<noteq> 0"
  by (simp add: fx_mmio_read_def fx_registers)

text \<open>
  C8: in every device state, a 4-byte read of an offset outside the register table returns
  all-ones; an access whose width is not 4 leaves the device state as it is, the read
  returning all-ones and the write being ignored.
\<close>

theorem unmapped_and_wrong_width:
  "(addr \<notin> fx_register_set \<longrightarrow> fx_mmio_read fx addr 4 = (NOT 0, fx)) \<and>
   (sz \<noteq> 4 \<longrightarrow> fx_mmio_read fx addr sz = (NOT 0, fx) \<and> fx_mmio_write fx addr val sz = fx)"
  by (simp add: fx_mmio_read_def fx_mmio_write_def fx_register_set_def)

theorem unmapped_and_wrong_width_witness:
  "(0x10 :: hwaddr) \<notin> fx_register_set \<and>
   fst (fx_mmio_read (raised_wait_state False) 0x10 4) = 0xFFFFFFFFFFFFFFFF \<and>
   (2 :: u32) \<noteq> 4 \<and>
   fx_mmio_read (raised_wait_state False) INTERRUPT_STATUS_REGISTER 2 =
     (0xFFFFFFFFFFFFFFFF, raised_wait_state False) \<and>
   fx_mmio_write (raised_wait_state False) INTERRUPT_ACK_REGISTER 1 2 = raised_wait_state False"
proof -
  have a: "(0x10 :: hwaddr) \<notin> fx_register_set"
    by (simp add: fx_register_set_def fx_registers)
  have b: "(2 :: u32) \<noteq> 4" by simp
  have c: "NOT 0 = (0xFFFFFFFFFFFFFFFF :: u64)" by simp
  from unmapped_and_wrong_width
    [where addr = "0x10" and fx = "raised_wait_state False" and sz = 2 and val = 1] a b
  have "fx_mmio_read (raised_wait_state False) 0x10 4 = (NOT 0, raised_wait_state False)"
    by blast
  moreover from unmapped_and_wrong_width
    [where addr = INTERRUPT_STATUS_REGISTER and fx = "raised_wait_state False" and sz = 2] b
  have "fx_mmio_read (raised_wait_state False) INTERRUPT_STATUS_REGISTER 2 =
      (NOT 0, raised_wait_state False)"
    by blast
  moreover from unmapped_and_wrong_width
    [where addr = INTERRUPT_ACK_REGISTER and fx = "raised_wait_state False" and sz = 2 and val = 1] b
  have "fx_mmio_write (raised_wait_state False) INTERRUPT_ACK_REGISTER 1 2 = raised_wait_state False"
    by blast
  ultimately show ?thesis using a b c by simp
qed

lemma run_mmio_reads: "\<forall>e\<in>set es. is_mmio_read e \<Longrightarrow> run es fx = fx"
  by (induction es arbitrary: fx)
    (auto simp: is_mmio_read_def fx_mmio_read_def split: event.splits)

text \<open>
  C10: a register read, at any offset and width, leaves the whole device state as it was
  (the interrupt status is not cleared by reading it), so after any sequence of reads the
  state is the same and every register reads the same value as before.
\<close>

theorem mmio_read_frame:
  "snd (fx_mmio_read fx addr sz) = fx \<and>
   ((\<forall>e\<in>set es. is_mmio_read e) \<longrightarrow>
      run es fx = fx \<and> fst (fx_mmio_read (run es fx) addr sz) = fst (fx_mmio_read fx addr sz))"
  by (simp add: run_mmio_reads) (simp add: fx_mmio_read_def)

theorem mmio_read_frame_witness:
  "is_mmio_read (MmioRead INTERRUPT_STATUS_REGISTER 4) \<and> is_mmio_read (MmioRead 0x10 4) \<and>
   is_mmio_read (MmioRead ID_REGISTER 1) \<and>
   run [MmioRead INTERRUPT_STATUS_REGISTER 4, MmioRead 0x10 4, MmioRead ID_REGISTER 1]
     (raised_wait_state False) = raised_wait_state False \<and>
   fst (fx_mmio_read (raised_wait_state False) INTERRUPT_STATUS_REGISTER 4) = 1 \<and>
   fst (fx_mmio_read
     (run [MmioRead INTERRUPT_STATUS_REGISTER 4, MmioRead 0x10 4, MmioRead ID_REGISTER 1]
        (raised_wait_state False)) INTERRUPT_STATUS_REGISTER 4) = 1"
proof -
  let ?es = "[MmioRead INTERRUPT_STATUS_REGISTER 4, MmioRead 0x10 4, MmioRead ID_REGISTER 1]"
  have a: "\<forall>e\<in>set ?es. is_mmio_read e" by (simp add: is_mmio_read_def)
  have b: "fst (fx_mmio_read (raised_wait_state False) INTERRUPT_STATUS_REGISTER 4) = 1"
    by (simp add: fx_mmio_read_def fx_registers raised_wait_state_irq)
  from mmio_read_frame [of "raised_wait_state False" INTERRUPT_STATUS_REGISTER 4 ?es] a
  have "run ?es (raised_wait_state False) = raised_wait_state False"
    and "fst (fx_mmio_read (run ?es (raised_wait_state False)) INTERRUPT_STATUS_REGISTER 4) =
      fst (fx_mmio_read (raised_wait_state False) INTERRUPT_STATUS_REGISTER 4)"
    by blast+
  with b show ?thesis by (simp add: is_mmio_read_def)
qed

section \<open>Interrupt line\<close>

text \<open>
  C5, as the code has it: \<open>fx_raise_irq\<close> ORs the cause bits into the mask, and with
  message-style signalling it sends exactly one notification whenever the mask is
  non-zero after the OR, whether or not it was zero before, and none when the mask stays
  zero.
\<close>

theorem raise_notifies_whenever_nonzero:
  "irq_status (fx_raise_irq fx val) = irq_status fx OR val \<and>
   msi_count (pdev (fx_raise_irq fx val)) =
     msi_count (pdev fx) + (if fx_msi_enabled fx \<and> (irq_status fx OR val) \<noteq> 0 then 1 else 0)"
  by (simp add: fx_raise_irq_def Let_def pci_core)

text \<open>
  C5 as stated (no additional notification when the mask was already non-zero) fails: in
  the state reached after the first raise of a message-signalled device the mask is 1 and
  one message has been sent; raising cause bit 1 again sends a second message.
\<close>

theorem raise_again_notifies_again:
  "irq_status (raised_wait_state True) = 1 \<and>
   fx_msi_enabled (raised_wait_state True) \<and>
   msi_count (pdev (raised_wait_state True)) = 1 \<and>
   msi_count (pdev (fx_raise_irq (raised_wait_state True) 1)) = 2"
  by (simp add: raised_wait_state_irq fx_raise_irq_def pci_core)







section \<open>Sleep duration\<close>

lemma unat_jitter: "unat (jitter random) = unat random mod 10000"
  by (simp add: jitter_def G_USEC_PER_SEC_def unat_mod)

lemma unat_base_period_le: "unat (base_period interval) \<le> 429496729"
proof -
  have "unat (interval * 1000000) < 4294967296"
    using unsigned_less [of "interval * 1000000", where 'a = nat] by simp
  then have "unat (interval * 1000000) div 10 \<le> 429496729" by simp
  then show ?thesis by (simp add: base_period_def G_USEC_PER_SEC_def unat_div)
qed

text \<open>The sum of the two terms never wraps: the quotient is below \<open>2^32 / 10\<close>.\<close>

lemma unat_sleep_usecs:
  "unat (sleep_usecs interval random) = unat (base_period interval) + unat (jitter random)"
proof -
  have "unat (jitter random) < 10000" by (simp add: unat_jitter)
  with unat_base_period_le [of interval]
  have "unat (base_period interval) + unat (jitter random) < 2 ^ LENGTH(32)" by simp
  then have "unat (base_period interval + jitter random) =
      unat (base_period interval) + unat (jitter random)"
    by (simp only: unat_add_lem)
  then show ?thesis by (simp add: sleep_usecs_def base_period_def jitter_def)
qed

text \<open>Up to 4294 the product \<open>interval * G_USEC_PER_SEC\<close> stays below \<open>2^32\<close>.\<close>

lemma unat_base_period_small:
  assumes "interval \<le> 4294"
  shows "unat (base_period interval) = unat interval * 100000"
proof -
  from assms have "unat interval \<le> 4294" by (simp add: word_le_nat_alt)
  then have "unat interval * unat (1000000 :: u32) < 2 ^ LENGTH(32)" by simp
  then have "unat (interval * 1000000) = unat interval * unat (1000000 :: u32)"
    by (simp only: unat_mult_lem)
  then show ?thesis by (simp add: base_period_def G_USEC_PER_SEC_def unat_div)
qed

text \<open>
  C6, as the code has it: for intervals up to 4294, where \<open>interval * G_USEC_PER_SEC\<close>
  does not wrap in 32 bits, the sleep duration is monotonic non-decreasing in the interval
  with the random value held fixed. For every interval the duration is the sum of
  \<open>base_period\<close> and \<open>jitter\<close> without wrap-around, hence at most
  \<open>base_period interval + max_jitter\<close>, and the jitter is below \<open>G_USEC_PER_SEC / 100\<close>,
  itself below \<open>G_USEC_PER_SEC / 10\<close>.
\<close>

theorem sleep_usecs_monotone_bounded:
  "(i \<le> j \<and> j \<le> 4294 \<longrightarrow> sleep_usecs i random \<le> sleep_usecs j random) \<and>
   unat (sleep_usecs i random) = unat (base_period i) + unat (jitter random) \<and>
   unat (sleep_usecs i random) \<le> unat (base_period i) + unat max_jitter \<and>
   jitter random \<le> max_jitter \<and>
   jitter random < G_USEC_PER_SEC div 100 \<and>
   G_USEC_PER_SEC div 100 < G_USEC_PER_SEC div 10"
proof -
  have mono: "sleep_usecs i random \<le> sleep_usecs j random" if "i \<le> j" "j \<le> 4294"
  proof -
    from that have "i \<le> 4294" by simp
    with that have "unat (base_period i) \<le> unat (base_period j)"
      by (simp add: unat_base_period_small word_le_nat_alt)
    then show ?thesis by (simp add: word_le_nat_alt unat_sleep_usecs)
  qed
  have j: "unat (jitter random) < 10000" by (simp add: unat_jitter)
  have m: "unat max_jitter = 9999" by (simp add: max_jitter_def G_USEC_PER_SEC_def)
  have g: "unat (G_USEC_PER_SEC div 100) = 10000" by (simp add: G_USEC_PER_SEC_def)
  have "jitter random \<le> max_jitter" using j m by (simp add: word_le_nat_alt)
  moreover have "jitter random < G_USEC_PER_SEC div 100"
    using j g by (simp add: word_less_nat_alt)
  moreover have "G_USEC_PER_SEC div 100 < G_USEC_PER_SEC div 10"
    by (simp add: G_USEC_PER_SEC_def)
  moreover have "unat (sleep_usecs i random) \<le> unat (base_period i) + unat max_jitter"
    using j m by (simp add: unat_sleep_usecs)
  ultimately show ?thesis using mono unat_sleep_usecs by blast
qed

theorem sleep_usecs_monotone_bounded_witness:
  "(5 :: u32) \<le> 10 \<and> (10 :: u32) \<le> 4294 \<and> sleep_usecs 5 7 \<le> sleep_usecs 10 7 \<and>
   sleep_usecs 5 7 = 500007 \<and> sleep_usecs 10 7 = 1000007"
proof -
  have "(5 :: u32) \<le> 10 \<and> (10 :: u32) \<le> 4294" by simp
  with sleep_usecs_monotone_bounded [of 5 10 7] have "sleep_usecs 5 7 \<le> sleep_usecs 10 7"
    by blast
  then show ?thesis by (simp add: sleep_usecs_def G_USEC_PER_SEC_def)
qed

text \<open>
  C6 as stated (monotonic for all interval values) fails where the 32-bit product wraps:
  with the random value 0, interval 4294 sleeps 429400000 microseconds and the larger
  interval 4295 sleeps 3270.
\<close>

theorem sleep_usecs_wraps:
  "(4294 :: u32) \<le> 4295 \<and> sleep_usecs 4294 0 = 429400000 \<and> sleep_usecs 4295 0 = 3270 \<and>
   \<not> sleep_usecs 4294 0 \<le> sleep_usecs 4295 0"
  by (simp add: sleep_usecs_def G_USEC_PER_SEC_def)

section \<open>Configuration channel\<close>

text \<open>
  C4 does not hold of the code: \<open>read_conf_server_callback\<close> stores the content of its local
  variable into \<open>conf_sleep_interval\<close> whatever \<open>read\<close> returned. On a device with the
  default interval 10, a failed read (\<open>-1\<close>) that leaves \<open>0x7ffd1234\<close> in the variable
  publishes \<open>0x7ffd1234\<close>.
\<close>

theorem read_conf_publishes_unchecked:
  "conf_sleep_interval (read_conf_server_callback nread interval fx) = interval \<and>
   conf_sleep_interval (pci_fx_realize False 3) = 10 \<and>
   conf_sleep_interval (read_conf_server_callback (- 1) 0x7ffd1234 (pci_fx_realize False 3))
     = 0x7ffd1234"
  by (simp add: read_conf_server_callback_def pci_fx_realize_def CONF_INTERVAL_DEFAULT_def)

lemma conf_interval_step:
  "\<not> is_conf_read e \<Longrightarrow> conf_sleep_interval (step e fx) = conf_sleep_interval fx"
  by (cases e)
    (simp_all add: is_conf_read_def fx_mmio_read_def fx_mmio_write_step_def
      accept_conf_server_callback_def fx_forcer_thread_def pci_fx_uninit_def
      split: worker_pc.splits uninit_pc.splits)

lemma conf_interval_run:
  "\<forall>e\<in>set es. \<not> is_conf_read e \<Longrightarrow>
   conf_sleep_interval (run es fx) = conf_sleep_interval fx"
  by (induction es arbitrary: fx) (simp_all add: conf_interval_step)

text \<open>
  C7: after \<open>read_conf_server_callback\<close> has published \<open>V\<close>, and through any run of events
  in which no newer value is published, \<open>conf_sleep_interval\<close> is \<open>V\<close> and a worker at the
  top of its loop computes its sleep from \<open>V\<close>; the publication itself leaves the worker
  where it is, so a sleep in progress keeps its duration.
\<close>

theorem published_interval_used:
  "((\<forall>e\<in>set es. \<not> is_conf_read e) \<longrightarrow>
      conf_sleep_interval (run es (step (ConfRead nread V) fx)) = V \<and>
      (thread (run es (step (ConfRead nread V) fx)) = WLoopTop \<longrightarrow>
         thread (step (Worker random) (run es (step (ConfRead nread V) fx))) =
           WSleeping (sleep_usecs V random))) \<and>
   thread (step (ConfRead nread V) fx) = thread fx"
proof -
  have "conf_sleep_interval (step (ConfRead nread V) fx) = V"
    by (simp add: read_conf_server_callback_def)
  then have "conf_sleep_interval (run es (step (ConfRead nread V) fx)) = V"
    if "\<forall>e\<in>set es. \<not> is_conf_read e"
    using conf_interval_run [OF that] by simp
  moreover have "thread (step (Worker random) s) = WSleeping (sleep_usecs V random)"
    if "conf_sleep_interval s = V" "thread s = WLoopTop" for s
    using that by (simp add: fx_forcer_thread_def)
  moreover have "thread (step (ConfRead nread V) fx) = thread fx"
    by (simp add: read_conf_server_callback_def)
  ultimately show ?thesis by blast
qed

theorem published_interval_used_witness:
  "\<not> is_conf_read (MmioWrite SCHEDULE_NEXT_REGISTER 0 4) \<and> \<not> is_conf_read (Worker 9) \<and>
   thread (run [MmioWrite SCHEDULE_NEXT_REGISTER 0 4, Worker 9]
     (step (ConfRead 4 5) (raised_wait_state False))) = WLoopTop \<and>
   conf_sleep_interval (run [MmioWrite SCHEDULE_NEXT_REGISTER 0 4, Worker 9]
     (step (ConfRead 4 5) (raised_wait_state False))) = 5 \<and>
   thread (step (Worker 7) (run [MmioWrite SCHEDULE_NEXT_REGISTER 0 4, Worker 9]
     (step (ConfRead 4 5) (raised_wait_state False)))) = WSleeping 500007"
proof -
  let ?es = "[MmioWrite SCHEDULE_NEXT_REGISTER 0 4, Worker 9]"
  let ?s = "run ?es (step (ConfRead 4 5) (raised_wait_state False))"
  have a: "\<forall>e\<in>set ?es. \<not> is_conf_read e" by (simp add: is_conf_read_def)
  have b: "thread ?s = WLoopTop"
    by (simp add: read_conf_server_callback_def fx_mmio_write_step_def thr_mutex_held_def
        fx_registers qemu_cond_signal_def fx_forcer_thread_def raised_wait_state_pc
        raised_wait_state_eq mid_sleep_state_eq pci_fx_realize_def)
  have c: "sleep_usecs 5 7 = 500007" by (simp add: sleep_usecs_def G_USEC_PER_SEC_def)
  from published_interval_used [of ?es 4 5 "raised_wait_state False" 7] a b
  have "conf_sleep_interval ?s = 5 \<and> thread (step (Worker 7) ?s) = WSleeping (sleep_usecs 5 7)"
    by blast
  with b c show ?thesis by (simp add: is_conf_read_def)
qed

section \<open>Rendezvous between the controller and the worker\<close>

lemma rendezvous_inv_raise:
  assumes "rendezvous_inv acked fx" "is_raise e fx"
  shows "acked \<and> rendezvous_inv False (step e fx)"
  using assms
  by (cases e; cases "thread fx")
    (simp_all add: rendezvous_inv_def is_raise_def fx_forcer_thread_def)

lemma rendezvous_inv_other:
  assumes "rendezvous_inv acked fx" "\<not> is_raise e fx"
  shows "rendezvous_inv (acked \<or> rendezvous_write e fx) (step e fx)"
proof (cases e)
  case (MmioRead a s)
  with assms show ?thesis by (simp add: fx_mmio_read_def rendezvous_write_def)
next
  case (MmioWrite a v s)
  have "rendezvous_inv True (qemu_cond_signal fx)"
    using assms(1) by (simp add: rendezvous_inv_def)
  with MmioWrite assms show ?thesis
    by (auto simp: fx_mmio_write_step_def rendezvous_write_def rendezvous_inv_def)
next
  case LowerStep
  with assms show ?thesis
    by (simp add: rendezvous_write_def rendezvous_inv_def)
next
  case (ConfAccept fd)
  with assms show ?thesis
    by (simp add: accept_conf_server_callback_def rendezvous_write_def rendezvous_inv_def)
next
  case (ConfRead n v)
  with assms show ?thesis
    by (simp add: read_conf_server_callback_def rendezvous_write_def rendezvous_inv_def)
next
  case (Worker r)
  with assms show ?thesis
    by (cases "thread fx")
      (auto simp: fx_forcer_thread_def rendezvous_write_def rendezvous_inv_def is_raise_def)
next
  case Uninit
  with assms show ?thesis
    by (cases "uninit fx"; cases "thread fx")
      (auto simp: pci_fx_uninit_def rendezvous_write_def rendezvous_inv_def
        qemu_cond_signal_def thr_mutex_held_def)
qed

lemma raises_separated_inv:
  "rendezvous_inv acked fx \<Longrightarrow> raises_separated acked es fx"
proof (induction es arbitrary: acked fx)
  case Nil
  show ?case by simp
next
  case (Cons e es)
  show ?case
  proof (cases "is_raise e fx")
    case True
    from rendezvous_inv_raise [OF Cons.prems True] Cons.IH [of False "step e fx"] True
    show ?thesis by simp
  next
    case False
    from rendezvous_inv_other [OF Cons.prems False] Cons.IH False
    show ?thesis by simp
  qed
qed

text \<open>The check is not empty: a run with two raises exists, and \<open>raises_separated\<close> rejects a
  raise that no rendezvous write precedes.\<close>

lemma two_raises_run:
  "raise_count
     [Worker 0, Worker 0, Worker 0, MmioWrite SCHEDULE_NEXT_REGISTER 0 4,
      Worker 0, Worker 0, Worker 0]
     (mid_sleep_state msi) = 2"
  by (simp add: is_raise_def mid_sleep_state_eq pci_fx_realize_def fx_forcer_thread_def
      fx_raise_irq_or_def fx_raise_irq_test_def fx_raise_irq_notify_def
      fx_mmio_write_step_def thr_mutex_held_def fx_registers qemu_cond_signal_def)

lemma raises_separated_rejects:
  "\<not> raises_separated False [Worker 0] (mid_sleep_state msi)"
  by (simp add: is_raise_def mid_sleep_state_pc)

text \<open>
  C1: in every run of events from the realized device (register accesses, the statements
  of an acknowledge write, configuration callbacks, worker steps and teardown steps in any
  order), a 4-byte controller write to the start or the schedule-next register lies
  between any two raises of the worker: after a raise the worker raises again only after
  such a write.
\<close>

theorem raises_separated_by_rendezvous_write:
  "raises_separated True es (pci_fx_realize msi lfd)"
  by (rule raises_separated_inv) (simp add: rendezvous_inv_def pci_fx_realize_def)

section \<open>Teardown\<close>

lemma join_blocked_step: "join_blocked fx \<Longrightarrow> join_blocked (step (teardown_event x) fx)"
  by (cases x; cases "thread fx"; cases "uninit fx")
    (simp_all add: join_blocked_def teardown_event_def fx_forcer_thread_def pci_fx_uninit_def
      qemu_cond_signal_def thr_mutex_held_def)

lemma join_blocked_run: "join_blocked fx \<Longrightarrow> join_blocked (run (map teardown_event xs) fx)"
  by (induction xs arbitrary: fx) (simp_all add: join_blocked_step)

lemma join_blocked_never_joins:
  "join_blocked fx \<Longrightarrow> thread fx \<noteq> WExited \<and> uninit fx \<noteq> UJoined"
  by (cases "thread fx") (auto simp: join_blocked_def)

text \<open>
  C2 does not hold of the code. The stop flag is tested only after the wait that follows a
  raise, and a signal is lost on a worker that is not waiting. When the teardown starts
  while the worker is in its armed wait, no schedule of teardown and worker steps lets the
  worker exit or the join return: the signal is spent on the wait of
  \<open>wait_device_driver\<close>, which does not look at the flag. When the teardown sets the flag
  and signals while the worker is inside \<open>g_usleep\<close>, the signal is lost; once the
  worker has run \<open>fx_raise_irq\<close> it is blocked in the wait after its raise, with the flag
  set, and the join never returns. Only a worker already blocked after a raise is
  released.
\<close>

theorem teardown_leaves_worker_blocked:
  "thread (run (map teardown_event xs) (armed_wait_state msi)) \<noteq> WExited \<and>
   uninit (run (map teardown_event xs) (armed_wait_state msi)) \<noteq> UJoined \<and>
   thread (run (Uninit # Uninit # map teardown_event xs) (mid_sleep_state msi)) \<noteq> WExited \<and>
   uninit (run (Uninit # Uninit # map teardown_event xs) (mid_sleep_state msi)) \<noteq> UJoined \<and>
   thread (run [Uninit, Uninit, Worker random, Worker random, Worker random]
     (mid_sleep_state msi)) = WRaisedWait \<and>
   stopping (run [Uninit, Uninit, Worker random, Worker random, Worker random]
     (mid_sleep_state msi)) \<and>
   uninit (run [Uninit, Uninit, Worker random, Uninit] (raised_wait_state msi)) = UJoined"
proof -
  have "join_blocked (armed_wait_state msi)"
    by (simp add: join_blocked_def armed_wait_state_pc)
  from join_blocked_never_joins [OF join_blocked_run [OF this]]
  have a: "thread (run (map teardown_event xs) (armed_wait_state msi)) \<noteq> WExited \<and>
    uninit (run (map teardown_event xs) (armed_wait_state msi)) \<noteq> UJoined" .
  have "join_blocked (run [Uninit, Uninit] (mid_sleep_state msi))"
    by (simp add: join_blocked_def pci_fx_uninit_def mid_sleep_state_pc qemu_cond_signal_def
        thr_mutex_held_def)
  from join_blocked_never_joins [OF join_blocked_run [OF this]]
  have b: "thread (run (Uninit # Uninit # map teardown_event xs) (mid_sleep_state msi)) \<noteq> WExited \<and>
    uninit (run (Uninit # Uninit # map teardown_event xs) (mid_sleep_state msi)) \<noteq> UJoined"
    by simp
  have c: "thread (run [Uninit, Uninit, Worker random, Worker random, Worker random]
      (mid_sleep_state msi)) = WRaisedWait \<and>
    stopping (run [Uninit, Uninit, Worker random, Worker random, Worker random]
      (mid_sleep_state msi))"
    by (simp add: pci_fx_uninit_def mid_sleep_state_pc qemu_cond_signal_def fx_forcer_thread_def
        thr_mutex_held_def fx_raise_irq_test_def fx_raise_irq_or_def)
  have d: "uninit (run [Uninit, Uninit, Worker random, Uninit] (raised_wait_state msi)) = UJoined"
    by (simp add: pci_fx_uninit_def raised_wait_state_pc qemu_cond_signal_def
        fx_forcer_thread_def thr_mutex_held_def)
  from a b c d show ?thesis by simp
qed

end
